theory Spec2Isabelle
  imports Main "HOL-Library.Sublist"
begin

section \<open>FluentClip: the clipboard history store\<close>

text \<open>
  A shallow embedding of the history logic of \<^verbatim>\<open>fluentclip.py\<close>: the class
  \<^verbatim>\<open>ClipboardItem\<close> and the methods of \<^verbatim>\<open>FluentClip\<close> that read or write
  \<^verbatim>\<open>self.history\<close>, \<^verbatim>\<open>self.max_history\<close>, \<^verbatim>\<open>self.current_content\<close> and the
  file \<^verbatim>\<open>history.json\<close>. Window chrome, styling, the tray icon, the hotkey thread and
  D-Bus are left out; of the widgets only the rows of the list box are kept, because
  searching and selecting work on them.

  Conventions.
  \<^item> A Python \<^verbatim>\<open>str\<close> is a \<^typ>\<open>string\<close>; the text is taken to be ASCII.
  \<^item> Every field of an item and every value of a persisted record is a string, as
    the program itself produces them.
  \<^item> What the program reads from outside is an argument: the clock (\<^verbatim>\<open>datetime.now()\<close>),
    the clipboard contents, the answer of a dialog, the outcome of decoding an image.
  \<^item> \<^verbatim>\<open>datetime.fromisoformat\<close> is an argument \<open>parse\<close> of the loading functions
    (\<open>None\<close> is its \<^verbatim>\<open>ValueError\<close>), so that the results hold for every such parser.
  \<^item> \<^verbatim>\<open>json.dump\<close> followed by \<^verbatim>\<open>json.load\<close> returns the dumped value; the file
    is therefore kept as the value \<^verbatim>\<open>json.load\<close> would return for it. Writing the file
    is taken to succeed.
\<close>

subsection \<open>Timestamps\<close>

record datetime =
  year :: nat
  month :: nat
  day :: nat
  hour :: nat
  minute :: nat
  second :: nat
  microsecond :: nat

definition digit_char :: "nat \<Rightarrow> char" where
  "digit_char d = ''0123456789'' ! (d mod 10)"

definition pad2 :: "nat \<Rightarrow> string" where
  "pad2 n = [digit_char (n div 10), digit_char n]"

definition pad4 :: "nat \<Rightarrow> string" where
  "pad4 n = [digit_char (n div 1000), digit_char (n div 100), digit_char (n div 10), digit_char n]"

definition pad6 :: "nat \<Rightarrow> string" where
  "pad6 n = [digit_char (n div 100000), digit_char (n div 10000), digit_char (n div 1000),
             digit_char (n div 100), digit_char (n div 10), digit_char n]"

text \<open>\<^verbatim>\<open>timestamp.strftime('%Y-%m-%d %H:%M:%S')\<close>, for a year of four digits.\<close>

definition strftime :: "datetime \<Rightarrow> string" where
  "strftime t = pad4 (year t) @ ''-'' @ pad2 (month t) @ ''-'' @ pad2 (day t) @ '' '' @
                pad2 (hour t) @ '':'' @ pad2 (minute t) @ '':'' @ pad2 (second t)"

text \<open>\<^verbatim>\<open>timestamp.isoformat()\<close>: the fraction is printed only when it is not zero.\<close>

definition isoformat :: "datetime \<Rightarrow> string" where
  "isoformat t = pad4 (year t) @ ''-'' @ pad2 (month t) @ ''-'' @ pad2 (day t) @ ''T'' @
                 pad2 (hour t) @ '':'' @ pad2 (minute t) @ '':'' @ pad2 (second t) @
                 (if microsecond t = 0 then '''' else ''.'' @ pad6 (microsecond t))"

subsection \<open>ClipboardItem\<close>

text \<open>
  The four attributes of \<^verbatim>\<open>ClipboardItem\<close>. \<open>item_type\<close> is the attribute \<^verbatim>\<open>type\<close>
  (the constructor's parameter \<^verbatim>\<open>item_type\<close>); \<open>image_data\<close> is \<open>None\<close> for Python's
  \<^verbatim>\<open>None\<close>. Every caller passes a timestamp, so the default \<^verbatim>\<open>datetime.now()\<close> of
  the constructor is never taken.
\<close>

record item =
  content :: string
  timestamp :: datetime
  item_type :: string
  image_data :: "string option"

definition ClipboardItem :: "string \<Rightarrow> datetime \<Rightarrow> string \<Rightarrow> string option \<Rightarrow> item" where
  "ClipboardItem c t ty d = \<lparr>content = c, timestamp = t, item_type = ty, image_data = d\<rparr>"

text \<open>A persisted record: a Python dict with string values, as an association list.\<close>

type_synonym dict = "(string \<times> string) list"

text \<open>\<^verbatim>\<open>if self.image_data:\<close> --- \<^verbatim>\<open>None\<close> and the empty string are both false.\<close>

definition truthy :: "string option \<Rightarrow> bool" where
  "truthy d = (case d of None \<Rightarrow> False | Some s \<Rightarrow> s \<noteq> [])"

definition to_dict :: "item \<Rightarrow> dict" where
  "to_dict it =
     [(''content'', content it), (''timestamp'', isoformat (timestamp it)), (''type'', item_type it)]
     @ (if truthy (image_data it) then [(''image_data'', the (image_data it))] else [])"

datatype error =
    JSONDecodeError
  | TypeError
  | KeyError string
  | ValueError string

text \<open>
  \<^verbatim>\<open>from_dict\<close> evaluates \<^verbatim>\<open>data["content"]\<close>, \<^verbatim>\<open>data["timestamp"]\<close>, the parse of the
  timestamp and \<^verbatim>\<open>data["type"]\<close> in this order; the first failure is the exception raised.
  An element of the list that is not a dict cannot be subscripted by a string.
\<close>

datatype element = Not_a_dict | Dict dict

fun from_dict :: "(string \<Rightarrow> datetime option) \<Rightarrow> element \<Rightarrow> error + item" where
  "from_dict parse Not_a_dict = Inl TypeError"
| "from_dict parse (Dict data) =
     (case map_of data ''content'' of
        None \<Rightarrow> Inl (KeyError ''content'')
      | Some c \<Rightarrow>
         (case map_of data ''timestamp'' of
            None \<Rightarrow> Inl (KeyError ''timestamp'')
          | Some ts \<Rightarrow>
             (case parse ts of
                None \<Rightarrow> Inl (ValueError ts)
              | Some t \<Rightarrow>
                 (case map_of data ''type'' of
                    None \<Rightarrow> Inl (KeyError ''type'')
                  | Some ty \<Rightarrow> Inr (ClipboardItem c t ty (map_of data ''image_data''))))))"

text \<open>The list comprehension of \<^verbatim>\<open>load_history\<close>: it stops at the first element that raises.\<close>

fun from_dicts :: "(string \<Rightarrow> datetime option) \<Rightarrow> element list \<Rightarrow> error + item list" where
  "from_dicts parse [] = Inr []"
| "from_dicts parse (d # ds) =
     (case from_dict parse d of
        Inl e \<Rightarrow> Inl e
      | Inr it \<Rightarrow> (case from_dicts parse ds of Inl e \<Rightarrow> Inl e | Inr its \<Rightarrow> Inr (it # its)))"

subsection \<open>The application state\<close>

text \<open>
  What \<^verbatim>\<open>json.load\<close> makes of \<^verbatim>\<open>history.json\<close>: it raises, or returns a value that is
  not a list, or returns a list.
\<close>

datatype file_content = Invalid_json | Not_a_list | Records "element list"

datatype clip = Clip_text string | Clip_image string

datatype log_line = Error_loading_history error | Error_setting_image

text \<open>
  \<open>listbox\<close> holds the items of the rows of \<^verbatim>\<open>self.listbox\<close>, top to bottom;
  \<open>history_file\<close> is \<open>None\<close> while \<^verbatim>\<open>history.json\<close> does not exist; \<open>clipboard\<close> is
  what the program last put on the system clipboard; \<open>stdout\<close> collects what it prints.
\<close>

record state =
  max_history :: int
  current_content :: string
  history :: "item list"
  is_visible :: bool
  listbox :: "item list"
  history_file :: "file_content option"
  clipboard :: "clip option"
  notifications :: "string list"
  stdout :: "log_line list"

definition refresh_list :: "state \<Rightarrow> state" where
  "refresh_list st = st\<lparr>listbox := history st\<rparr>"

definition save_history :: "state \<Rightarrow> state" where
  "save_history st = st\<lparr>history_file := Some (Records (map (Dict \<circ> to_dict) (history st)))\<rparr>"

subsection \<open>Observing the clipboard\<close>

text \<open>\<^verbatim>\<open>xs[:n]\<close> for any integer \<open>n\<close>; a negative \<open>n\<close> counts from the end.\<close>

definition slice_to :: "'a list \<Rightarrow> int \<Rightarrow> 'a list" where
  "slice_to xs n = (if 0 \<le> n then take (nat n) xs else take (length xs - nat (- n)) xs)"

text \<open>\<^verbatim>\<open>xs.pop(i)\<close> for an index inside the list.\<close>

definition pop :: "nat \<Rightarrow> 'a list \<Rightarrow> 'a list" where
  "pop i xs = take i xs @ drop (Suc i) xs"

text \<open>The \<^verbatim>\<open>for i, item in enumerate(...)\<close> loops: the index of the first item that matches.\<close>

fun first_index :: "('a \<Rightarrow> bool) \<Rightarrow> 'a list \<Rightarrow> nat option" where
  "first_index P [] = None"
| "first_index P (x # xs) = (if P x then Some 0 else map_option Suc (first_index P xs))"

text \<open>The tests of the two loops: \<^verbatim>\<open>item.type == "text" and item.content == text\<close> and
  \<^verbatim>\<open>item.type == "image" and item.image_data == image_data\<close>.\<close>

definition matches_text :: "string \<Rightarrow> item \<Rightarrow> bool" where
  "matches_text text it = (item_type it = ''text'' \<and> content it = text)"

definition matches_image :: "string \<Rightarrow> item \<Rightarrow> bool" where
  "matches_image data it = (item_type it = ''image'' \<and> image_data it = Some data)"

text \<open>The \<^verbatim>\<open>if len(self.history) > self.max_history\<close> block.\<close>

definition limit_history :: "state \<Rightarrow> state" where
  "limit_history st =
     (if int (length (history st)) > max_history st
      then st\<lparr>history := slice_to (history st) (max_history st)\<rparr> else st)"

definition process_clipboard_text :: "state \<Rightarrow> string \<Rightarrow> datetime \<Rightarrow> state" where
  "process_clipboard_text st0 text now =
     (let st = st0\<lparr>current_content := text\<rparr> in
      case first_index (matches_text text) (history st) of
        Some i \<Rightarrow>
          save_history (refresh_list
            (st\<lparr>history := ClipboardItem text now ''text'' None # pop i (history st)\<rparr>))
      | None \<Rightarrow>
          save_history (refresh_list (limit_history
            (st\<lparr>history := ClipboardItem text now ''text'' None # history st\<rparr>))))"

text \<open>
  A pixbuf is known by what \<^verbatim>\<open>process_clipboard_image\<close> gets out of it: the success flag
  of \<^verbatim>\<open>save_to_bufferv("png", ...)\<close> and the base64 text of the buffer.
\<close>

record pixbuf =
  save_success :: bool
  png_base64 :: string

definition process_clipboard_image :: "state \<Rightarrow> pixbuf \<Rightarrow> datetime \<Rightarrow> state" where
  "process_clipboard_image st pb now =
     (if save_success pb then
        (let data = png_base64 pb;
             new_item = ClipboardItem (''Image '' @ strftime now) now ''image'' (Some data) in
         case first_index (matches_image data) (history st) of
           Some i \<Rightarrow> save_history (refresh_list (st\<lparr>history := new_item # pop i (history st)\<rparr>))
         | None \<Rightarrow> save_history (refresh_list (limit_history (st\<lparr>history := new_item # history st\<rparr>))))
      else st)"

text \<open>\<^verbatim>\<open>str.isspace\<close> on ASCII characters (codes 9 to 13 and 28 to 32), and \<^verbatim>\<open>text.strip()\<close>.\<close>

definition isspace :: "char \<Rightarrow> bool" where
  "isspace c = (let n = (of_char c :: nat) in (9 \<le> n \<and> n \<le> 13) \<or> (28 \<le> n \<and> n \<le> 32))"

definition strip :: "string \<Rightarrow> string" where
  "strip s = rev (dropWhile isspace (rev (dropWhile isspace s)))"

text \<open>
  One tick of the polling timer. \<open>text\<close> and \<open>img\<close> are what \<^verbatim>\<open>wait_for_text()\<close> and
  \<^verbatim>\<open>wait_for_image()\<close> return (\<open>None\<close> for \<^verbatim>\<open>None\<close>).
\<close>

definition check_clipboard :: "state \<Rightarrow> string option \<Rightarrow> pixbuf option \<Rightarrow> datetime \<Rightarrow> state" where
  "check_clipboard st text img now =
     (case text of
        Some t \<Rightarrow>
          if t \<noteq> [] \<and> t \<noteq> current_content st \<and> strip t \<noteq> [] then process_clipboard_text st t now
          else (case img of Some pb \<Rightarrow> process_clipboard_image st pb now | None \<Rightarrow> st)
      | None \<Rightarrow> (case img of Some pb \<Rightarrow> process_clipboard_image st pb now | None \<Rightarrow> st))"

text \<open>A trace of observations, each with the clock reading of its call.\<close>

datatype observation =
    Process_text string datetime
  | Process_image pixbuf datetime
  | Check_clipboard "string option" "pixbuf option" datetime

fun observe :: "state \<Rightarrow> observation \<Rightarrow> state" where
  "observe st (Process_text text now) = process_clipboard_text st text now"
| "observe st (Process_image pb now) = process_clipboard_image st pb now"
| "observe st (Check_clipboard text img now) = check_clipboard st text img now"

definition observe_all :: "state \<Rightarrow> observation list \<Rightarrow> state" where
  "observe_all st obs = foldl observe st obs"

subsection \<open>Starting up: the constructor and load_history\<close>

text \<open>
  The attributes \<^verbatim>\<open>__init__\<close> sets before it calls \<^verbatim>\<open>load_history\<close>; \<open>file\<close> is the
  \<^verbatim>\<open>history.json\<close> found on disk.
\<close>

definition initial :: "file_content option \<Rightarrow> state" where
  "initial file =
     \<lparr>max_history = 30, current_content = [], history = [], is_visible = False,
      listbox = [], history_file = file, clipboard = None, notifications = [], stdout = []\<rparr>"

text \<open>
  \<^verbatim>\<open>load_history\<close>: nothing happens without a file; an exception anywhere in the
  \<^verbatim>\<open>try\<close> block is printed and leaves \<^verbatim>\<open>self.history\<close> as it was; a value that is not a
  list is skipped by the \<^verbatim>\<open>isinstance\<close> test without a message.
\<close>

definition load_history :: "(string \<Rightarrow> datetime option) \<Rightarrow> state \<Rightarrow> state" where
  "load_history parse st =
     (case history_file st of
        None \<Rightarrow> st
      | Some Invalid_json \<Rightarrow> st\<lparr>stdout := stdout st @ [Error_loading_history JSONDecodeError]\<rparr>
      | Some Not_a_list \<Rightarrow> st
      | Some (Records data) \<Rightarrow>
          (case from_dicts parse data of
             Inl e \<Rightarrow> st\<lparr>stdout := stdout st @ [Error_loading_history e]\<rparr>
           | Inr items \<Rightarrow>
               (let st1 = refresh_list (st\<lparr>history := items\<rparr>) in
                if history st1 \<noteq> [] then st1\<lparr>current_content := content (hd (history st1))\<rparr>
                else st1)))"

definition FluentClip_init :: "(string \<Rightarrow> datetime option) \<Rightarrow> file_content option \<Rightarrow> state" where
  "FluentClip_init parse file = load_history parse (initial file)"

subsection \<open>The settings dialog\<close>

datatype response = OK | CANCEL | DELETE_EVENT

text \<open>
  The spin button is bound to \<^verbatim>\<open>Gtk.Adjustment(lower=5, upper=100, step_increment=1)\<close>:
  whatever number is entered, the value read back lies between 5 and 100.
\<close>

definition spin_button_value :: "int \<Rightarrow> int" where
  "spin_button_value entered = max 5 (min 100 entered)"

definition on_settings :: "state \<Rightarrow> response \<Rightarrow> int \<Rightarrow> state" where
  "on_settings st resp entered =
     (if resp = OK then st\<lparr>max_history := spin_button_value entered\<rparr> else st)"

subsection \<open>Searching\<close>

text \<open>\<^verbatim>\<open>str.lower()\<close> on ASCII text: the capital letters change, nothing else does.\<close>

definition lower_char :: "char \<Rightarrow> char" where
  "lower_char c =
     (case map_of (zip ''ABCDEFGHIJKLMNOPQRSTUVWXYZ'' ''abcdefghijklmnopqrstuvwxyz'') c of
        Some l \<Rightarrow> l
      | None \<Rightarrow> c)"

definition lower :: "string \<Rightarrow> string" where
  "lower s = map lower_char s"

text \<open>\<^verbatim>\<open>a in b\<close> for two strings.\<close>

fun str_in :: "string \<Rightarrow> string \<Rightarrow> bool" where
  "str_in a [] = (a = [])"
| "str_in a (c # b) = (prefix a (c # b) \<or> str_in a b)"

text \<open>The loop of \<^verbatim>\<open>on_search_changed\<close> over \<^verbatim>\<open>self.history\<close>, adding a row per hit.\<close>

fun search_rows :: "string \<Rightarrow> item list \<Rightarrow> item list" where
  "search_rows search_text [] = []"
| "search_rows search_text (it # its) =
     (if item_type it = ''text'' \<and> str_in search_text (lower (content it))
        then it # search_rows search_text its
      else if item_type it = ''image'' \<and> str_in search_text (lower (content it))
        then it # search_rows search_text its
      else search_rows search_text its)"

definition on_search_changed :: "state \<Rightarrow> string \<Rightarrow> state" where
  "on_search_changed st entry_text =
     (let search_text = lower entry_text in st\<lparr>listbox := search_rows search_text (history st)\<rparr>)"

subsection \<open>Selecting a row\<close>





subsection \<open>The operations as the specification words them\<close>

datatype spec_error = OutOfRange | InvalidArgument


text \<open>
  search(query): the entries whose content contains the query as a substring, case
  ignored, in the order of the entries.
\<close>

definition ci_substring :: "string \<Rightarrow> string \<Rightarrow> bool" where
  "ci_substring query s = sublist (lower query) (lower s)"

definition spec_search :: "item list \<Rightarrow> string \<Rightarrow> item list" where
  "spec_search entries query = filter (\<lambda>e. ci_substring query (content e)) entries"

text \<open>Position \<open>i\<close> holds the first entry of \<open>xs\<close> that satisfies \<open>P\<close>.\<close>

definition first_match :: "('a \<Rightarrow> bool) \<Rightarrow> 'a list \<Rightarrow> nat \<Rightarrow> bool" where
  "first_match P xs i = (i < length xs \<and> P (xs ! i) \<and> (\<forall>j<i. \<not> P (xs ! j)))"

text \<open>
  The entry \<open>it\<close> carries the fields of the persisted record \<open>d\<close> as they stand: its
  content, its type, its image data if the record has any, and the timestamp its text
  parses to.
\<close>

definition record_of :: "(string \<Rightarrow> datetime option) \<Rightarrow> element \<Rightarrow> item \<Rightarrow> bool" where
  "record_of parse d it =
     (case d of
        Not_a_dict \<Rightarrow> False
      | Dict data \<Rightarrow>
          map_of data ''content'' = Some (content it)
          \<and> map_option parse (map_of data ''timestamp'') = Some (Some (timestamp it))
          \<and> map_of data ''type'' = Some (item_type it)
          \<and> map_of data ''image_data'' = image_data it)"

text \<open>What saving and loading does to an entry: an empty payload is not written.\<close>

definition reloaded :: "item \<Rightarrow> item" where
  "reloaded it = (if image_data it = Some [] then it\<lparr>image_data := None\<rparr> else it)"

text \<open>The invariant of the history: no more entries than the capacity.\<close>

definition within_capacity :: "state \<Rightarrow> bool" where
  "within_capacity st = (int (length (history st)) \<le> max_history st)"

text \<open>The entry kinds of the data model.\<close>

definition known_kind :: "item \<Rightarrow> bool" where
  "known_kind it = (item_type it = ''text'' \<or> item_type it = ''image'')"

subsection \<open>Concrete data for the examples\<close>

definition t1 :: datetime where
  "t1 = \<lparr>year = 2024, month = 3, day = 9, hour = 8, minute = 5, second = 7, microsecond = 0\<rparr>"

definition t2 :: datetime where
  "t2 = \<lparr>year = 2024, month = 3, day = 10, hour = 14, minute = 30, second = 59, microsecond = 250000\<rparr>"

text \<open>A parser that knows the two timestamps above and rejects every other string.\<close>

definition parse_ex :: "string \<Rightarrow> datetime option" where
  "parse_ex s = (if s = isoformat t1 then Some t1 else if s = isoformat t2 then Some t2 else None)"

definition text_item :: "string \<Rightarrow> item" where
  "text_item s = ClipboardItem s t1 ''text'' None"

definition image_item :: "string \<Rightarrow> item" where
  "image_item d = ClipboardItem (''Image '' @ strftime t1) t1 ''image'' (Some d)"

definition with_history :: "item list \<Rightarrow> state" where
  "with_history its = (initial None)\<lparr>history := its, listbox := its\<rparr>"

definition png_ex :: pixbuf where
  "png_ex = \<lparr>save_success = True, png_base64 = ''QUJD''\<rparr>"

text \<open>A full history of capacity two, and three observations of the three kinds.\<close>

definition two_texts :: state where
  "two_texts = (with_history [text_item ''a'', text_item ''b''])\<lparr>max_history := 2\<rparr>"

definition three_observations :: "observation list" where
  "three_observations =
     [Process_text ''c'' t2, Process_image png_ex t2, Check_clipboard (Some ''a'') None t2]"

text \<open>Two texts and then an image, the image first seen at \<open>t1\<close>.\<close>

definition text_then_image :: state where
  "text_then_image = with_history [text_item ''a'', text_item ''b'', image_item ''QUJD'']"

text \<open>Six texts under the default capacity of thirty.\<close>

definition six_texts :: state where
  "six_texts = with_history (map text_item [''a'', ''b'', ''c'', ''d'', ''e'', ''f''])"

text \<open>Two texts, shown in full and shown after the search for BETA.\<close>

definition alpha_beta :: state where
  "alpha_beta = with_history [text_item ''alpha'', text_item ''beta'']"


text \<open>
  A history file of thirty-one equal records, one with a record that lacks its timestamp,
  and a state holding an image entry whose payload is the empty string.
\<close>

definition oversized_file :: file_content where
  "oversized_file = Records (replicate 31 (Dict (to_dict (text_item ''a''))))"


definition empty_payload :: state where
  "empty_payload = with_history [ClipboardItem ''Image 2024-03-09 08:05:07'' t1 ''image'' (Some [])]"

text \<open>The text hello observed on an empty history.\<close>

definition hello_seen :: state where
  "hello_seen = process_clipboard_text (with_history []) ''hello'' t1"

text \<open>A history file with one record of a type that is neither text nor image.\<close>

definition other_kind_file :: file_content where
  "other_kind_file =
     Records [Dict [(''content'', ''notes.txt''), (''timestamp'', isoformat t1), (''type'', ''file'')]]"

section \<open>Verification\<close>

subsection \<open>List helpers\<close>

lemma first_index_Some:
  "first_index P xs = Some i \<Longrightarrow> first_match P xs i"
proof (induction xs arbitrary: i)
  case Nil
  then show ?case by simp
next
  case (Cons x xs)
  show ?case
  proof (cases "P x")
    case True
    with Cons.prems show ?thesis by (simp add: first_match_def)
  next
    case False
    with Cons.prems obtain k where k: "first_index P xs = Some k" "i = Suc k"
      by auto
    from Cons.IH [OF k(1)] False k(2) show ?thesis
      by (auto simp: first_match_def nth_Cons split: nat.splits)
  qed
qed

lemma first_index_None: "first_index P xs = None \<longleftrightarrow> (\<forall>x\<in>set xs. \<not> P x)"
  by (induction xs) auto

lemma first_match_index:
  "first_match P xs i \<Longrightarrow> first_index P xs = Some i"
proof (induction xs arbitrary: i)
  case Nil
  then show ?case by (simp add: first_match_def)
next
  case (Cons x xs)
  show ?case
  proof (cases i)
    case 0
    with Cons.prems show ?thesis by (simp add: first_match_def)
  next
    case (Suc k)
    with Cons.prems have "\<not> P x" by (auto simp: first_match_def)
    moreover have "first_match P xs k"
      using Cons.prems Suc by (fastforce simp: first_match_def)
    then have "first_index P xs = Some k" by (rule Cons.IH)
    ultimately show ?thesis using Suc by simp
  qed
qed

lemma length_pop: "i < length xs \<Longrightarrow> length (pop i xs) = length xs - 1"
  by (simp add: pop_def)

lemma length_slice_to: "0 \<le> n \<Longrightarrow> int (length (slice_to xs n)) \<le> n"
  by (simp add: slice_to_def)

subsection \<open>What the observing functions do to each field\<close>

lemma max_history_process_text [simp]:
  "max_history (process_clipboard_text st text now) = max_history st"
  by (simp add: process_clipboard_text_def Let_def save_history_def refresh_list_def
      limit_history_def split: option.splits)

lemma max_history_process_image [simp]:
  "max_history (process_clipboard_image st pb now) = max_history st"
  by (simp add: process_clipboard_image_def Let_def save_history_def refresh_list_def
      limit_history_def split: option.splits)

lemma max_history_check_clipboard [simp]:
  "max_history (check_clipboard st text img now) = max_history st"
  by (simp add: check_clipboard_def split: option.splits)

lemma max_history_observe [simp]: "max_history (observe st ob) = max_history st"
  by (cases ob) simp_all

lemma max_history_observe_all [simp]: "max_history (observe_all st obs) = max_history st"
  unfolding observe_all_def by (induction obs arbitrary: st) simp_all

lemma history_process_text:
  "history (process_clipboard_text st text now) =
     (case first_index (matches_text text) (history st) of
        Some i \<Rightarrow> ClipboardItem text now ''text'' None # pop i (history st)
      | None \<Rightarrow>
          (let h = ClipboardItem text now ''text'' None # history st in
           if int (length h) > max_history st then slice_to h (max_history st) else h))"
  by (simp add: process_clipboard_text_def Let_def save_history_def refresh_list_def
      limit_history_def split: option.splits)

lemma history_process_image:
  "history (process_clipboard_image st pb now) =
     (if save_success pb then
        (let new_item = ClipboardItem (''Image '' @ strftime now) now ''image'' (Some (png_base64 pb)) in
         case first_index (matches_image (png_base64 pb)) (history st) of
           Some i \<Rightarrow> new_item # pop i (history st)
         | None \<Rightarrow>
            (let h = new_item # history st in
             if int (length h) > max_history st then slice_to h (max_history st) else h))
      else history st)"
  by (simp add: process_clipboard_image_def Let_def save_history_def refresh_list_def
      limit_history_def split: option.splits)

lemma current_content_process_image [simp]:
  "current_content (process_clipboard_image st pb now) = current_content st"
  by (simp add: process_clipboard_image_def Let_def save_history_def refresh_list_def
      limit_history_def split: option.splits)

subsection \<open>The capacity bound\<close>

lemma insert_bounded:
  assumes "int (length h) \<le> m"
  shows "int (length (let h' = x # h in if int (length h') > m then slice_to h' m else h')) \<le> m"
proof -
  from assms have "0 \<le> m" by linarith
  then show ?thesis by (simp add: Let_def length_slice_to)
qed

lemma moved_bounded:
  assumes "int (length h) \<le> m" "first_index P h = Some i"
  shows "int (length (x # pop i h)) \<le> m"
proof -
  from first_index_Some [OF assms(2)] have "i < length h" by (simp add: first_match_def)
  then have "length (x # pop i h) = length h" by (simp add: length_pop)
  with assms(1) show ?thesis by simp
qed

lemma within_capacity_text:
  assumes "within_capacity st"
  shows "within_capacity (process_clipboard_text st text now)"
proof (cases "first_index (matches_text text) (history st)")
  case None
  with insert_bounded [of "history st" "max_history st"] assms show ?thesis
    unfolding within_capacity_def max_history_process_text history_process_text by simp
next
  case (Some i)
  with moved_bounded [of "history st" "max_history st" _ i] assms show ?thesis
    unfolding within_capacity_def max_history_process_text history_process_text by simp
qed

lemma within_capacity_image:
  assumes "within_capacity st"
  shows "within_capacity (process_clipboard_image st pb now)"
proof (cases "save_success pb")
  case False
  with assms show ?thesis by (simp add: process_clipboard_image_def)
next
  case True
  show ?thesis
  proof (cases "first_index (matches_image (png_base64 pb)) (history st)")
    case None
    with insert_bounded [of "history st" "max_history st"] assms True show ?thesis
      unfolding within_capacity_def max_history_process_image history_process_image by simp
  next
    case (Some i)
    with moved_bounded [of "history st" "max_history st" _ i] assms True show ?thesis
      unfolding within_capacity_def max_history_process_image history_process_image by simp
  qed
qed

lemma within_capacity_check:
  "within_capacity st \<Longrightarrow> within_capacity (check_clipboard st text img now)"
  by (simp add: check_clipboard_def within_capacity_text within_capacity_image split: option.splits)

lemma within_capacity_observe: "within_capacity st \<Longrightarrow> within_capacity (observe st ob)"
  by (cases ob) (simp_all add: within_capacity_text within_capacity_image within_capacity_check)

lemma within_capacity_observe_all:
  "within_capacity st \<Longrightarrow> within_capacity (observe_all st obs)"
  unfolding observe_all_def
  by (induction obs arbitrary: st) (simp_all add: within_capacity_observe)

text \<open>
  Claim C1. Start from a state whose history is no longer than \<open>max_history\<close> and run any
  sequence of observations --- direct calls of \<open>process_clipboard_text\<close> and
  \<open>process_clipboard_image\<close>, or timer ticks of \<open>check_clipboard\<close>. After each call of the
  sequence the history is still no longer than \<open>max_history\<close>.
\<close>

theorem C1_capacity_bound:
  assumes "int (length (history st)) \<le> max_history st"
  shows "\<forall>k\<le>length obs.
           int (length (history (observe_all st (take k obs)))) \<le> max_history st"
proof (intro allI impI)
  fix k
  from assms have "within_capacity st" by (simp add: within_capacity_def)
  then have "within_capacity (observe_all st (take k obs))"
    by (rule within_capacity_observe_all)
  then show "int (length (history (observe_all st (take k obs)))) \<le> max_history st"
    by (simp add: within_capacity_def)
qed

theorem C1_capacity_bound_witness:
  "int (length (history two_texts)) \<le> max_history two_texts
   \<and> int (length (history (observe_all two_texts (take 1 three_observations))))
        \<le> max_history two_texts
   \<and> int (length (history (observe_all two_texts (take 3 three_observations))))
        \<le> max_history two_texts"
proof -
  have h: "int (length (history two_texts)) \<le> max_history two_texts"
    by (simp add: two_texts_def with_history_def)
  have n: "length three_observations = 3"
    by (simp add: three_observations_def)
  have "int (length (history (observe_all two_texts (take 1 three_observations))))
          \<le> max_history two_texts"
    using C1_capacity_bound [OF h, of three_observations, rule_format, of 1] n by simp
  moreover have "int (length (history (observe_all two_texts (take 3 three_observations))))
          \<le> max_history two_texts"
    using C1_capacity_bound [OF h, of three_observations, rule_format, of 3] n by simp
  ultimately show ?thesis using h by simp
qed

subsection \<open>Polling an unchanged clipboard\<close>

lemma check_clipboard_same_text:
  "check_clipboard st (Some (current_content st)) None now = st"
  by (simp add: check_clipboard_def)

text \<open>The text hello last seen, and an image observed after it.\<close>

lemma hello_seen_history: "history hello_seen = [ClipboardItem ''hello'' t1 ''text'' None]"
  by (simp add: hello_seen_def history_process_text with_history_def initial_def)

lemma hello_seen_current: "current_content hello_seen = ''hello''"
  by (simp add: hello_seen_def process_clipboard_text_def with_history_def initial_def
      save_history_def refresh_list_def limit_history_def)

lemma hello_then_image:
  "history (process_clipboard_image hello_seen png_ex t2)
     = [ClipboardItem (''Image '' @ strftime t2) t2 ''image'' (Some ''QUJD''),
        ClipboardItem ''hello'' t1 ''text'' None]"
proof -
  have m: "max_history hello_seen = 30"
    by (simp add: hello_seen_def with_history_def initial_def)
  show ?thesis
    by (simp add: history_process_image hello_seen_history m png_ex_def Let_def
        matches_image_def ClipboardItem_def)
qed

text \<open>
  Claim C6, as amended. A poll that finds the text equal to \<open>current_content\<close> and no
  image leaves the whole state as it was, any number of times. A poll that finds that text
  and an image goes on to the image: it does what \<open>process_clipboard_image\<close> does, and
  that is nothing if encoding the image fails. In every case \<open>current_content\<close> stays.
\<close>

theorem C6_unchanged_text_poll:
  "foldl (\<lambda>s now. check_clipboard s (Some (current_content st)) None now) st nows = st
   \<and> check_clipboard st (Some (current_content st)) (Some pb) now
       = process_clipboard_image st pb now
   \<and> check_clipboard st (Some (current_content st)) (Some (pb\<lparr>save_success := False\<rparr>)) now = st
   \<and> current_content (check_clipboard st (Some (current_content st)) img now)
       = current_content st"
proof (intro conjI)
  show "foldl (\<lambda>s now. check_clipboard s (Some (current_content st)) None now) st nows = st"
  proof (induction nows)
    case Nil
    show ?case by simp
  next
    case (Cons now nows)
    then show ?case by (simp add: check_clipboard_same_text)
  qed
  show "check_clipboard st (Some (current_content st)) (Some pb) now
       = process_clipboard_image st pb now"
    by (simp add: check_clipboard_def)
  show "check_clipboard st (Some (current_content st)) (Some (pb\<lparr>save_success := False\<rparr>)) now = st"
    by (simp add: check_clipboard_def process_clipboard_image_def)
  show "current_content (check_clipboard st (Some (current_content st)) img now)
       = current_content st"
    by (cases img) (simp_all add: check_clipboard_def)
qed

text \<open>
  The claim as it stands fails when the clipboard offers an image beside the unchanged
  text: with hello last seen and on top, the poll puts an image entry above it.
\<close>

theorem C6_image_on_offer_counterexample:
  "current_content hello_seen = ''hello''
   \<and> history hello_seen = [ClipboardItem ''hello'' t1 ''text'' None]
   \<and> history (check_clipboard hello_seen (Some ''hello'') (Some png_ex) t2)
        = [ClipboardItem (''Image '' @ strftime t2) t2 ''image'' (Some ''QUJD''),
           ClipboardItem ''hello'' t1 ''text'' None]
   \<and> history (check_clipboard hello_seen (Some ''hello'') (Some png_ex) t2)
        \<noteq> history hello_seen"
proof -
  have "check_clipboard hello_seen (Some ''hello'') (Some png_ex) t2
          = process_clipboard_image hello_seen png_ex t2"
    by (simp add: check_clipboard_def hello_seen_current)
  then have "history (check_clipboard hello_seen (Some ''hello'') (Some png_ex) t2)
        = [ClipboardItem (''Image '' @ strftime t2) t2 ''image'' (Some ''QUJD''),
           ClipboardItem ''hello'' t1 ''text'' None]"
    by (simp only: hello_then_image)
  then show ?thesis by (simp add: hello_seen_current hello_seen_history)
qed




subsection \<open>Observing what is already in the history\<close>

lemma history_text_duplicate:
  assumes "first_match (matches_text text) (history st) i"
  shows "history (process_clipboard_text st text now)
           = ClipboardItem text now ''text'' None # pop i (history st)"
  using first_match_index [OF assms] by (simp add: history_process_text)

lemma history_image_duplicate:
  assumes "save_success pb" "first_match (matches_image (png_base64 pb)) (history st) i"
  shows "history (process_clipboard_image st pb now)
           = ClipboardItem (''Image '' @ strftime now) now ''image'' (Some (png_base64 pb))
               # pop i (history st)"
  using first_match_index [OF assms(2)] assms(1) by (simp add: history_process_image)

lemma length_moved: "first_match P xs i \<Longrightarrow> length (x # pop i xs) = length xs"
  by (auto simp: first_match_def length_pop)

text \<open>
  Claim C2, as amended. Let position \<open>i\<close> hold the first entry of the history that matches
  the candidate: for a text, an entry of type text with the same content; for an image
  whose encoding succeeds, an entry of type image with the same payload. Then the
  observation removes the entry at \<open>i\<close> and puts a new entry with the fresh timestamp at the
  front, and the length stays the same. For a text the new entry has the content of the
  old one. For an image it has the payload of the old one, and its content is the label
  made from the fresh timestamp.
\<close>

theorem C2_duplicate_moves_to_front:
  "(first_match (matches_text text) (history st) i \<longrightarrow>
      history (process_clipboard_text st text now)
        = ClipboardItem text now ''text'' None # pop i (history st)
      \<and> length (history (process_clipboard_text st text now)) = length (history st)
      \<and> content (hd (history (process_clipboard_text st text now))) = content (history st ! i)
      \<and> timestamp (hd (history (process_clipboard_text st text now))) = now)
   \<and> (save_success pb \<and> first_match (matches_image (png_base64 pb)) (history st) i \<longrightarrow>
      history (process_clipboard_image st pb now)
        = ClipboardItem (''Image '' @ strftime now) now ''image'' (Some (png_base64 pb))
            # pop i (history st)
      \<and> length (history (process_clipboard_image st pb now)) = length (history st)
      \<and> image_data (hd (history (process_clipboard_image st pb now))) = image_data (history st ! i)
      \<and> content (hd (history (process_clipboard_image st pb now))) = ''Image '' @ strftime now
      \<and> timestamp (hd (history (process_clipboard_image st pb now))) = now)"
proof (intro conjI impI)
  assume m: "first_match (matches_text text) (history st) i"
  show h: "history (process_clipboard_text st text now)
        = ClipboardItem text now ''text'' None # pop i (history st)"
    by (rule history_text_duplicate [OF m])
  show "length (history (process_clipboard_text st text now)) = length (history st)"
    unfolding h by (rule length_moved [OF m])
  from m have "content (history st ! i) = text"
    by (simp add: first_match_def matches_text_def)
  then show "content (hd (history (process_clipboard_text st text now))) = content (history st ! i)"
    unfolding h by (simp add: ClipboardItem_def)
  show "timestamp (hd (history (process_clipboard_text st text now))) = now"
    unfolding h by (simp add: ClipboardItem_def)
next
  assume a: "save_success pb \<and> first_match (matches_image (png_base64 pb)) (history st) i"
  then have s: "save_success pb"
    and m: "first_match (matches_image (png_base64 pb)) (history st) i" by simp_all
  show h: "history (process_clipboard_image st pb now)
        = ClipboardItem (''Image '' @ strftime now) now ''image'' (Some (png_base64 pb))
            # pop i (history st)"
    by (rule history_image_duplicate [OF s m])
  show "length (history (process_clipboard_image st pb now)) = length (history st)"
    unfolding h by (rule length_moved [OF m])
  from m have "image_data (history st ! i) = Some (png_base64 pb)"
    by (simp add: first_match_def matches_image_def)
  then show "image_data (hd (history (process_clipboard_image st pb now))) = image_data (history st ! i)"
    unfolding h by (simp add: ClipboardItem_def)
  show "content (hd (history (process_clipboard_image st pb now))) = ''Image '' @ strftime now"
    unfolding h by (simp add: ClipboardItem_def)
  show "timestamp (hd (history (process_clipboard_image st pb now))) = now"
    unfolding h by (simp add: ClipboardItem_def)
qed

lemma text_then_image_first_match_text:
  "first_match (matches_text ''b'') (history text_then_image) 1"
  by (simp add: first_match_def matches_text_def text_then_image_def with_history_def
      text_item_def image_item_def ClipboardItem_def)

lemma text_then_image_first_match_image:
  "first_match (matches_image (png_base64 png_ex)) (history text_then_image) 2"
  by (simp add: first_match_def matches_image_def text_then_image_def with_history_def
      text_item_def image_item_def ClipboardItem_def png_ex_def less_Suc_eq numeral_2_eq_2)

theorem C2_duplicate_moves_to_front_witness:
  "first_match (matches_text ''b'') (history text_then_image) 1
   \<and> history (process_clipboard_text text_then_image ''b'' t2)
       = [ClipboardItem ''b'' t2 ''text'' None, text_item ''a'', image_item ''QUJD'']
   \<and> save_success png_ex
   \<and> first_match (matches_image (png_base64 png_ex)) (history text_then_image) 2
   \<and> history (process_clipboard_image text_then_image png_ex t2)
       = [ClipboardItem (''Image '' @ strftime t2) t2 ''image'' (Some ''QUJD''),
          text_item ''a'', text_item ''b'']"
proof -
  note m1 = text_then_image_first_match_text
  note m2 = text_then_image_first_match_image
  have s: "save_success png_ex" by (simp add: png_ex_def)
  have "history (process_clipboard_text text_then_image ''b'' t2)
       = [ClipboardItem ''b'' t2 ''text'' None, text_item ''a'', image_item ''QUJD'']"
    using C2_duplicate_moves_to_front [of "''b''" text_then_image 1 t2 png_ex] m1
    by (simp add: pop_def text_then_image_def with_history_def)
  moreover have "history (process_clipboard_image text_then_image png_ex t2)
       = [ClipboardItem (''Image '' @ strftime t2) t2 ''image'' (Some ''QUJD''),
          text_item ''a'', text_item ''b'']"
    using C2_duplicate_moves_to_front [of "''zz''" text_then_image 2 t2 png_ex] m2 s
    by (simp add: pop_def text_then_image_def with_history_def png_ex_def)
  ultimately show ?thesis using m1 m2 s by simp
qed

text \<open>
  The claim as it stands fails for images: the entry put at the front does not have the
  content of the entry it replaces, because the label is made anew from the clock.
\<close>

theorem C2_image_label_counterexample:
  "save_success png_ex
   \<and> first_match (matches_image (png_base64 png_ex)) (history text_then_image) 2
   \<and> content (history text_then_image ! 2) = ''Image 2024-03-09 08:05:07''
   \<and> content (hd (history (process_clipboard_image text_then_image png_ex t2)))
        = ''Image 2024-03-10 14:30:59''
   \<and> content (hd (history (process_clipboard_image text_then_image png_ex t2)))
        \<noteq> content (history text_then_image ! 2)"
proof -
  have s: "save_success png_ex" by (simp add: png_ex_def)
  have h: "history (process_clipboard_image text_then_image png_ex t2)
       = ClipboardItem (''Image '' @ strftime t2) t2 ''image'' (Some (png_base64 png_ex))
            # pop 2 (history text_then_image)"
    by (rule history_image_duplicate [OF s text_then_image_first_match_image])
  have old: "content (history text_then_image ! 2) = ''Image 2024-03-09 08:05:07''"
    by (simp add: text_then_image_def with_history_def image_item_def ClipboardItem_def
        strftime_def t1_def pad2_def pad4_def digit_char_def)
  have new: "content (hd (history (process_clipboard_image text_then_image png_ex t2)))
        = ''Image 2024-03-10 14:30:59''"
    unfolding h by (simp add: ClipboardItem_def strftime_def t2_def pad2_def pad4_def digit_char_def)
  show ?thesis using s text_then_image_first_match_image old new by simp
qed

subsection \<open>The settings dialog\<close>

lemma length_image_new:
  assumes "save_success pb" "\<forall>it\<in>set (history st). \<not> matches_image (png_base64 pb) it"
    "0 \<le> max_history st"
  shows "length (history (process_clipboard_image st pb now))
           = min (Suc (length (history st))) (nat (max_history st))"
proof -
  from assms(2) have "first_index (matches_image (png_base64 pb)) (history st) = None"
    by (simp add: first_index_None)
  with assms(1,3) show ?thesis
    by (auto simp: history_process_image Let_def slice_to_def min_def)
qed

lemma length_text_new:
  assumes "\<forall>it\<in>set (history st). \<not> matches_text text it" "0 \<le> max_history st"
  shows "length (history (process_clipboard_text st text now))
           = min (Suc (length (history st))) (nat (max_history st))"
proof -
  from assms(1) have "first_index (matches_text text) (history st) = None"
    by (simp add: first_index_None)
  with assms(2) show ?thesis
    by (auto simp: history_process_text Let_def slice_to_def min_def)
qed

text \<open>
  Claim C3, as amended. \<open>on_settings\<close> never fails. It leaves the history, the last seen
  text and the history file as they are. Unless the dialog is answered with OK it changes
  nothing at all. Answered with OK, it stores the value of the spin button as
  \<open>max_history\<close>; that value is the number entered, brought into the range from 5 to
  100. The history is cut to the new bound only later: when the next text or image that is
  not yet in the history is observed, the history then has the smaller of its old length
  plus one and the new bound.
\<close>

theorem C3_settings_only_store_bound:
  "history (on_settings st resp entered) = history st
   \<and> current_content (on_settings st resp entered) = current_content st
   \<and> history_file (on_settings st resp entered) = history_file st
   \<and> (resp \<noteq> OK \<longrightarrow> on_settings st resp entered = st)
   \<and> (resp = OK \<longrightarrow>
        max_history (on_settings st resp entered) = spin_button_value entered
        \<and> 5 \<le> spin_button_value entered \<and> spin_button_value entered \<le> 100)
   \<and> (5 \<le> entered \<and> entered \<le> 100 \<longrightarrow> spin_button_value entered = entered)
   \<and> (resp = OK \<and> (\<forall>it\<in>set (history st). \<not> matches_text text it) \<longrightarrow>
        length (history (process_clipboard_text (on_settings st resp entered) text now))
          = min (Suc (length (history st))) (nat (spin_button_value entered)))
   \<and> (resp = OK \<and> save_success pb
        \<and> (\<forall>it\<in>set (history st). \<not> matches_image (png_base64 pb) it) \<longrightarrow>
        length (history (process_clipboard_image (on_settings st resp entered) pb now))
          = min (Suc (length (history st))) (nat (spin_button_value entered)))"
proof (intro conjI impI)
  show "history (on_settings st resp entered) = history st"
    by (simp add: on_settings_def)
  show "current_content (on_settings st resp entered) = current_content st"
    by (simp add: on_settings_def)
  show "history_file (on_settings st resp entered) = history_file st"
    by (simp add: on_settings_def)
  show "on_settings st resp entered = st" if "resp \<noteq> OK"
    using that by (simp add: on_settings_def)
  show "max_history (on_settings st resp entered) = spin_button_value entered" if "resp = OK"
    using that by (simp add: on_settings_def)
  show "5 \<le> spin_button_value entered" by (simp add: spin_button_value_def)
  show "spin_button_value entered \<le> 100" by (simp add: spin_button_value_def)
  show "spin_button_value entered = entered" if "5 \<le> entered \<and> entered \<le> 100"
    using that by (simp add: spin_button_value_def)
  show "length (history (process_clipboard_text (on_settings st resp entered) text now))
          = min (Suc (length (history st))) (nat (spin_button_value entered))"
    if a: "resp = OK \<and> (\<forall>it\<in>set (history st). \<not> matches_text text it)"
  proof -
    let ?st = "on_settings st resp entered"
    from a have h: "history ?st = history st" and m: "max_history ?st = spin_button_value entered"
      by (simp_all add: on_settings_def)
    have "0 \<le> max_history ?st" unfolding m by (simp add: spin_button_value_def)
    moreover from a h have "\<forall>it\<in>set (history ?st). \<not> matches_text text it" by simp
    ultimately have "length (history (process_clipboard_text ?st text now))
           = min (Suc (length (history ?st))) (nat (max_history ?st))"
      by (rule length_text_new [rotated])
    then show ?thesis by (simp only: h m)
  qed
  show "length (history (process_clipboard_image (on_settings st resp entered) pb now))
          = min (Suc (length (history st))) (nat (spin_button_value entered))"
    if a: "resp = OK \<and> save_success pb
        \<and> (\<forall>it\<in>set (history st). \<not> matches_image (png_base64 pb) it)"
  proof -
    let ?st = "on_settings st resp entered"
    from a have h: "history ?st = history st" and m: "max_history ?st = spin_button_value entered"
      by (simp_all add: on_settings_def)
    have b: "0 \<le> max_history ?st" unfolding m by (simp add: spin_button_value_def)
    from a have s: "save_success pb" by simp
    from a h have n: "\<forall>it\<in>set (history ?st). \<not> matches_image (png_base64 pb) it" by simp
    have "length (history (process_clipboard_image ?st pb now))
           = min (Suc (length (history ?st))) (nat (max_history ?st))"
      by (rule length_image_new [OF s n b])
    then show ?thesis by (simp only: h m)
  qed
qed

lemma six_texts_no_g: "\<forall>it\<in>set (history six_texts). \<not> matches_text ''g'' it"
  by (simp add: six_texts_def with_history_def matches_text_def text_item_def ClipboardItem_def)

theorem C3_settings_only_store_bound_witness:
  "history (on_settings six_texts OK 5) = history six_texts
   \<and> max_history (on_settings six_texts OK 5) = 5
   \<and> length (history (process_clipboard_text (on_settings six_texts OK 5) ''g'' t2)) = 5
   \<and> on_settings six_texts CANCEL 5 = six_texts"
proof -
  have l: "length (history six_texts) = 6"
    by (simp add: six_texts_def with_history_def)
  have v: "spin_button_value 5 = 5" by (simp add: spin_button_value_def)
  note ok = C3_settings_only_store_bound [of six_texts OK 5 "''g''" t2]
  note cancel = C3_settings_only_store_bound [of six_texts CANCEL 5 "''g''" t2]
  from ok have "history (on_settings six_texts OK 5) = history six_texts" by simp
  moreover from ok v have "max_history (on_settings six_texts OK 5) = 5" by simp
  moreover from ok six_texts_no_g l v
  have "length (history (process_clipboard_text (on_settings six_texts OK 5) ''g'' t2)) = 5"
    by simp
  moreover from cancel have "on_settings six_texts CANCEL 5 = six_texts" by simp
  ultimately show ?thesis by simp
qed

text \<open>
  The claim as it stands fails. With six entries, accepting the dialog at 5 leaves six
  entries above the new bound and writes no file; entering 0 raises nothing and changes
  the bound from 30 to 5.
\<close>

theorem C3_no_truncation_counterexample:
  "length (history six_texts) = 6
   \<and> max_history (on_settings six_texts OK 5) = 5
   \<and> length (history (on_settings six_texts OK 5)) = 6
   \<and> \<not> int (length (history (on_settings six_texts OK 5))) \<le> max_history (on_settings six_texts OK 5)
   \<and> history_file six_texts = None
   \<and> history_file (on_settings six_texts OK 5) = None
   \<and> max_history six_texts = 30
   \<and> max_history (on_settings six_texts OK 0) = 5
   \<and> on_settings six_texts OK 0 \<noteq> six_texts"
proof -
  have a: "length (history six_texts) = 6" "history_file six_texts = None" "max_history six_texts = 30"
    by (simp_all add: six_texts_def with_history_def initial_def)
  have b: "max_history (on_settings six_texts OK 5) = 5" "max_history (on_settings six_texts OK 0) = 5"
    by (simp_all add: on_settings_def spin_button_value_def)
  have c: "history (on_settings six_texts OK 5) = history six_texts"
    "history_file (on_settings six_texts OK 5) = history_file six_texts"
    by (simp_all add: on_settings_def)
  have d: "on_settings six_texts OK 0 \<noteq> six_texts"
  proof
    assume "on_settings six_texts OK 0 = six_texts"
    then have "max_history (on_settings six_texts OK 0) = max_history six_texts" by simp
    with a(3) b(2) show False by simp
  qed
  show ?thesis using a b c d by simp
qed

subsection \<open>Selecting a row\<close>







subsection \<open>Loading the history file\<close>

lemma from_dict_record_of: "from_dict parse d = Inr it \<longleftrightarrow> record_of parse d it"
proof (cases d)
  case Not_a_dict
  then show ?thesis by (simp add: record_of_def)
next
  case (Dict data)
  then show ?thesis
    by (cases it) (auto simp: record_of_def ClipboardItem_def split: option.splits)
qed

lemma from_dicts_Inr:
  "from_dicts parse ds = Inr its \<longleftrightarrow> list_all2 (\<lambda>d it. from_dict parse d = Inr it) ds its"
proof (induction ds arbitrary: its)
  case Nil
  show ?case by auto
next
  case (Cons d ds)
  have "from_dicts parse (d # ds) = Inr its \<longleftrightarrow>
          (\<exists>it its'. its = it # its' \<and> from_dict parse d = Inr it \<and> from_dicts parse ds = Inr its')"
    by (auto split: sum.splits)
  then show ?case by (simp add: Cons.IH list_all2_Cons1)
qed

lemma from_dicts_total:
  "(\<forall>d\<in>set ds. \<not> isl (from_dict parse d)) \<Longrightarrow> \<exists>its. from_dicts parse ds = Inr its"
proof (induction ds)
  case Nil
  show ?case by simp
next
  case (Cons d ds)
  from Cons.prems have "\<forall>d\<in>set ds. \<not> isl (from_dict parse d)" by simp
  then obtain its where its: "from_dicts parse ds = Inr its"
    using Cons.IH by blast
  from Cons.prems have "\<not> isl (from_dict parse d)" by simp
  then obtain it where "from_dict parse d = Inr it"
    by (cases "from_dict parse d") simp_all
  with its show ?case by simp
qed


lemma init_loaded:
  assumes "from_dicts parse ds = Inr its"
  shows "history (FluentClip_init parse (Some (Records ds))) = its"
    and "max_history (FluentClip_init parse (Some (Records ds))) = 30"
    and "stdout (FluentClip_init parse (Some (Records ds))) = []"
    and "current_content (FluentClip_init parse (Some (Records ds)))
           = (if its = [] then [] else content (hd its))"
  using assms
  by (simp_all add: FluentClip_init_def load_history_def initial_def refresh_list_def Let_def)


text \<open>
  Claim C9. If every record of the history file converts, then after start-up the history
  has one entry per record, in the order of the file, each with the fields of its record
  as they stand. Nothing is cut to the capacity, which is 30, and nothing is removed as a
  duplicate.
\<close>

theorem C9_load_installs_file_verbatim:
  assumes "\<forall>d\<in>set ds. \<not> isl (from_dict parse d)"
  shows "list_all2 (record_of parse) ds (history (FluentClip_init parse (Some (Records ds))))
         \<and> length (history (FluentClip_init parse (Some (Records ds)))) = length ds
         \<and> max_history (FluentClip_init parse (Some (Records ds))) = 30"
proof -
  from from_dicts_total [OF assms] obtain its where its: "from_dicts parse ds = Inr its" ..
  then have "list_all2 (record_of parse) ds its"
    by (simp add: from_dicts_Inr from_dict_record_of)
  moreover from this have "length its = length ds"
    by (simp add: list_all2_lengthD)
  ultimately show ?thesis by (simp add: init_loaded [OF its])
qed

lemma from_dict_text_item_a:
  "from_dict parse_ex (Dict (to_dict (text_item ''a''))) = Inr (text_item ''a'')"
  by (simp add: to_dict_def text_item_def ClipboardItem_def truthy_def parse_ex_def)

theorem C9_load_installs_file_verbatim_witness:
  "length (history (FluentClip_init parse_ex (Some oversized_file))) = 31
   \<and> max_history (FluentClip_init parse_ex (Some oversized_file)) = 30
   \<and> record_of parse_ex (Dict (to_dict (text_item ''a'')))
        (history (FluentClip_init parse_ex (Some oversized_file)) ! 0)
   \<and> record_of parse_ex (Dict (to_dict (text_item ''a'')))
        (history (FluentClip_init parse_ex (Some oversized_file)) ! 30)"
proof -
  let ?ds = "replicate 31 (Dict (to_dict (text_item ''a'')))"
  have ok: "\<forall>d\<in>set ?ds. \<not> isl (from_dict parse_ex d)"
    by (simp add: from_dict_text_item_a del: from_dict.simps)
  note th = C9_load_installs_file_verbatim [OF ok, folded oversized_file_def]
  from th have len: "length (history (FluentClip_init parse_ex (Some oversized_file))) = 31"
    and "max_history (FluentClip_init parse_ex (Some oversized_file)) = 30"
    by simp_all
  moreover from th
  have all: "list_all2 (record_of parse_ex) ?ds (history (FluentClip_init parse_ex (Some oversized_file)))"
    by simp
  have "record_of parse_ex (?ds ! 0) (history (FluentClip_init parse_ex (Some oversized_file)) ! 0)"
    by (rule list_all2_nthD [OF all]) simp
  moreover
  have "record_of parse_ex (?ds ! 30) (history (FluentClip_init parse_ex (Some oversized_file)) ! 30)"
    by (rule list_all2_nthD [OF all]) simp
  ultimately show ?thesis by simp
qed




subsection \<open>Saving and loading again\<close>

lemma from_dict_to_dict:
  assumes "parse (isoformat (timestamp it)) = Some (timestamp it)"
  shows "from_dict parse (Dict (to_dict it)) = Inr (reloaded it)"
proof (cases "image_data it")
  case None
  with assms show ?thesis
    by (cases it) (simp add: to_dict_def truthy_def reloaded_def ClipboardItem_def)
next
  case (Some d)
  with assms show ?thesis
    by (cases it) (simp add: to_dict_def truthy_def reloaded_def ClipboardItem_def)
qed

lemma from_dicts_to_dicts:
  assumes "\<forall>it\<in>set its. parse (isoformat (timestamp it)) = Some (timestamp it)"
  shows "from_dicts parse (map (Dict \<circ> to_dict) its) = Inr (map reloaded its)"
  using assms
  by (induction its) (simp_all add: from_dict_to_dict del: from_dict.simps)

lemma restart_history:
  assumes "\<forall>it\<in>set (history st). parse (isoformat (timestamp it)) = Some (timestamp it)"
  shows "history (FluentClip_init parse (history_file (save_history st)))
           = map reloaded (history st)"
  using init_loaded(1) [OF from_dicts_to_dicts [OF assms]]
  by (simp add: save_history_def)

lemma reloaded_fields:
  "content (reloaded it) = content it"
  "item_type (reloaded it) = item_type it"
  "timestamp (reloaded it) = timestamp it"
  "image_data it \<noteq> Some [] \<Longrightarrow> image_data (reloaded it) = image_data it"
  "image_data it \<noteq> Some [] \<Longrightarrow> reloaded it = it"
  by (simp_all add: reloaded_def)

text \<open>
  Claim C5, as amended. Let the timestamp parser invert \<open>isoformat\<close> on the timestamps of
  the history. Then saving the history and starting up again from the file written gives
  a history of the same length whose entries have, position by position, the same content,
  the same type and the same timestamp, and the same image data unless that was the empty
  string, which comes back as no data at all. So a history without an empty payload comes
  back equal.
\<close>

theorem C5_save_then_load:
  assumes "\<forall>it\<in>set (history st). parse (isoformat (timestamp it)) = Some (timestamp it)"
  shows "list_all2
           (\<lambda>new old. content new = content old \<and> item_type new = item_type old
                \<and> timestamp new = timestamp old
                \<and> image_data new = (if image_data old = Some [] then None else image_data old))
           (history (FluentClip_init parse (history_file (save_history st)))) (history st)
         \<and> ((\<forall>it\<in>set (history st). image_data it \<noteq> Some []) \<longrightarrow>
              history (FluentClip_init parse (history_file (save_history st))) = history st)"
proof (intro conjI impI)
  note r = restart_history [OF assms]
  show "list_all2
           (\<lambda>new old. content new = content old \<and> item_type new = item_type old
                \<and> timestamp new = timestamp old
                \<and> image_data new = (if image_data old = Some [] then None else image_data old))
           (history (FluentClip_init parse (history_file (save_history st)))) (history st)"
    unfolding r by (simp add: list_all2_map1 list_all2_same reloaded_def)
  assume "\<forall>it\<in>set (history st). image_data it \<noteq> Some []"
  then have "map reloaded (history st) = history st"
    by (simp add: map_idI reloaded_fields(5))
  with r show "history (FluentClip_init parse (history_file (save_history st))) = history st"
    by simp
qed

lemma parse_ex_t1: "parse_ex (isoformat t1) = Some t1"
  by (simp add: parse_ex_def)

theorem C5_save_then_load_witness:
  "history (FluentClip_init parse_ex (history_file (save_history text_then_image)))
     = [text_item ''a'', text_item ''b'', image_item ''QUJD'']"
proof -
  have h: "history text_then_image = [text_item ''a'', text_item ''b'', image_item ''QUJD'']"
    by (simp add: text_then_image_def with_history_def)
  have p: "\<forall>it\<in>set (history text_then_image). parse_ex (isoformat (timestamp it)) = Some (timestamp it)"
    unfolding h by (simp add: text_item_def image_item_def ClipboardItem_def parse_ex_t1)
  have d: "\<forall>it\<in>set (history text_then_image). image_data it \<noteq> Some []"
    unfolding h by (simp add: text_item_def image_item_def ClipboardItem_def)
  from C5_save_then_load [OF p] d
  have "history (FluentClip_init parse_ex (history_file (save_history text_then_image)))
          = history text_then_image"
    by blast
  then show ?thesis by (simp only: h)
qed

text \<open>
  The claim as it stands fails for an image entry whose payload is the empty string:
  \<open>to_dict\<close> leaves the payload out, and the entry comes back with none.
\<close>

theorem C5_empty_payload_counterexample:
  "image_data (hd (history empty_payload)) = Some []
   \<and> item_type (hd (history empty_payload)) = ''image''
   \<and> image_data (hd (history (FluentClip_init parse_ex (history_file (save_history empty_payload)))))
        = None
   \<and> history (FluentClip_init parse_ex (history_file (save_history empty_payload)))
        \<noteq> history empty_payload"
proof -
  let ?it = "ClipboardItem ''Image 2024-03-09 08:05:07'' t1 ''image'' (Some [])"
  have h: "history empty_payload = [?it]"
    by (simp add: empty_payload_def with_history_def)
  have p: "\<forall>it\<in>set (history empty_payload). parse_ex (isoformat (timestamp it)) = Some (timestamp it)"
    unfolding h by (simp add: ClipboardItem_def parse_ex_t1)
  have r: "history (FluentClip_init parse_ex (history_file (save_history empty_payload)))
             = [reloaded ?it]"
    using restart_history [OF p] by (simp add: h)
  have a: "image_data ?it = Some []" "item_type ?it = ''image''"
    and b: "image_data (reloaded ?it) = None"
    by (simp_all add: ClipboardItem_def reloaded_def)
  from a(1) b have "reloaded ?it \<noteq> ?it" by auto
  with a b show ?thesis unfolding r h by simp
qed

subsection \<open>Entries keep to the two kinds\<close>

lemma set_pop: "set (pop i xs) \<subseteq> set xs"
  by (auto simp: pop_def dest: in_set_takeD in_set_dropD)

lemma set_slice_to: "set (slice_to xs n) \<subseteq> set xs"
  by (auto simp: slice_to_def dest: in_set_takeD)

lemma known_kind_new [simp]:
  "known_kind (ClipboardItem c t ''text'' d)" "known_kind (ClipboardItem c t ''image'' d)"
  by (simp_all add: known_kind_def ClipboardItem_def)

lemma known_kinds_text:
  assumes "\<forall>it\<in>set (history st). known_kind it"
  shows "\<forall>it\<in>set (history (process_clipboard_text st text now)). known_kind it"
proof (cases "first_index (matches_text text) (history st)")
  case None
  with assms show ?thesis
    using set_slice_to [of "ClipboardItem text now ''text'' None # history st" "max_history st"]
    by (auto simp: history_process_text Let_def)
next
  case (Some i)
  with assms show ?thesis
    using set_pop [of i "history st"] by (auto simp: history_process_text)
qed

lemma known_kinds_image:
  assumes "\<forall>it\<in>set (history st). known_kind it"
  shows "\<forall>it\<in>set (history (process_clipboard_image st pb now)). known_kind it"
proof (cases "first_index (matches_image (png_base64 pb)) (history st)")
  case None
  with assms show ?thesis
    using set_slice_to [of "ClipboardItem (''Image '' @ strftime now) now ''image''
        (Some (png_base64 pb)) # history st" "max_history st"]
    by (auto simp: history_process_image Let_def)
next
  case (Some i)
  with assms show ?thesis
    using set_pop [of i "history st"] by (auto simp: history_process_image Let_def)
qed

lemma known_kinds_check:
  assumes "\<forall>it\<in>set (history st). known_kind it"
  shows "\<forall>it\<in>set (history (check_clipboard st clip img now)). known_kind it"
proof (cases clip)
  case None
  then show ?thesis
    using known_kinds_image [OF assms] assms
    by (cases img) (simp_all add: check_clipboard_def)
next
  case (Some t)
  show ?thesis
  proof (cases "t \<noteq> [] \<and> t \<noteq> current_content st \<and> strip t \<noteq> []")
    case True
    with Some show ?thesis
      using known_kinds_text [OF assms] by (simp add: check_clipboard_def)
  next
    case False
    with Some show ?thesis
      using known_kinds_image [OF assms] known_kinds_text [OF assms] assms
      by (cases img) (simp_all add: check_clipboard_def)
  qed
qed

lemma known_kinds_observe:
  assumes "\<forall>it\<in>set (history st). known_kind it"
  shows "\<forall>it\<in>set (history (observe st ob)). known_kind it"
proof (cases ob)
  case (Process_text s now)
  then show ?thesis using known_kinds_text [OF assms] by simp
next
  case (Process_image pb now)
  then show ?thesis using known_kinds_image [OF assms] by simp
next
  case (Check_clipboard s img now)
  then show ?thesis using known_kinds_check [OF assms] by simp
qed

lemma known_kinds_observe_all:
  "\<forall>it\<in>set (history st). known_kind it \<Longrightarrow>
     \<forall>it\<in>set (history (observe_all st obs)). known_kind it"
  unfolding observe_all_def
proof (induction obs arbitrary: st)
  case Nil
  then show ?case by simp
next
  case (Cons ob obs)
  from Cons.IH [OF known_kinds_observe [OF Cons.prems]] show ?case by simp
qed

subsection \<open>Searching\<close>

lemma str_in_sublist: "str_in a b \<longleftrightarrow> sublist a b"
  by (induction b) (simp_all add: sublist_Cons_right)

lemma search_rows_filter:
  "search_rows q its = filter (\<lambda>it. known_kind it \<and> sublist q (lower (content it))) its"
  by (induction its) (auto simp: known_kind_def str_in_sublist)

lemma search_rows_known:
  assumes "\<forall>it\<in>set its. known_kind it"
  shows "search_rows (lower query) its = spec_search its query"
proof -
  have "filter (\<lambda>it. known_kind it \<and> sublist (lower query) (lower (content it))) its
          = filter (\<lambda>it. ci_substring query (content it)) its"
    using assms by (intro filter_cong) (auto simp: ci_substring_def)
  then show ?thesis by (simp add: search_rows_filter spec_search_def)
qed

lemma on_search_changed_frame:
  "history (on_search_changed st query) = history st"
  "max_history (on_search_changed st query) = max_history st"
  "current_content (on_search_changed st query) = current_content st"
  "history_file (on_search_changed st query) = history_file st"
  by (simp_all add: on_search_changed_def Let_def)

lemma search_rows_other_kind:
  "\<not> known_kind it \<Longrightarrow> it \<notin> set (search_rows q its)"
  by (simp add: search_rows_filter)

lemma search_rows_spec:
  "search_rows (lower query) its
     = filter (\<lambda>e. known_kind e \<and> ci_substring query (content e)) its"
  by (simp add: search_rows_filter ci_substring_def)

text \<open>
  Claim C7, as amended. The rows \<open>on_search_changed\<close> lists for a query are exactly the
  entries of type text or image whose content contains the query as a substring, case
  ignored --- for an image that content is its label ---, in the order of the history; an
  entry of any other type is never listed. The history, the capacity, the last seen text
  and the history file stay as they are. The empty query lists the entries of type text or
  image, and a query that no content contains lists nothing. If every entry is of type
  text or image, the rows are the entries the specified search returns, and the empty
  query lists the whole history.
\<close>

theorem C7_search_lists_known_kinds:
  "listbox (on_search_changed st query)
     = filter (\<lambda>e. known_kind e \<and> ci_substring query (content e)) (history st)
   \<and> history (on_search_changed st query) = history st
   \<and> max_history (on_search_changed st query) = max_history st
   \<and> current_content (on_search_changed st query) = current_content st
   \<and> history_file (on_search_changed st query) = history_file st
   \<and> listbox (on_search_changed st []) = filter known_kind (history st)
   \<and> ((\<forall>it\<in>set (history st). \<not> ci_substring query (content it)) \<longrightarrow>
        listbox (on_search_changed st query) = [])
   \<and> ((\<forall>it\<in>set (history st). known_kind it) \<longrightarrow>
        listbox (on_search_changed st query) = spec_search (history st) query
        \<and> listbox (on_search_changed st []) = history st)"
proof -
  have l: "listbox (on_search_changed st q)
             = filter (\<lambda>e. known_kind e \<and> ci_substring q (content e)) (history st)" for q
    by (simp add: on_search_changed_def Let_def search_rows_spec)
  have e: "ci_substring [] s" for s
    by (simp add: ci_substring_def lower_def)
  have "listbox (on_search_changed st []) = filter known_kind (history st)"
    by (simp add: l e)
  moreover have "listbox (on_search_changed st query) = []"
    if "\<forall>it\<in>set (history st). \<not> ci_substring query (content it)"
    using that by (simp add: l)
  moreover have "listbox (on_search_changed st q) = spec_search (history st) q"
    if "\<forall>it\<in>set (history st). known_kind it" for q
    using search_rows_known [OF that, of q] by (simp add: on_search_changed_def Let_def)
  moreover have "spec_search (history st) [] = history st"
    by (simp add: spec_search_def e)
  ultimately show ?thesis by (simp add: l on_search_changed_frame)
qed

lemma alpha_beta_known: "\<forall>it\<in>set (history alpha_beta). known_kind it"
  by (simp add: alpha_beta_def with_history_def known_kind_def text_item_def ClipboardItem_def)

lemma alpha_beta_no_match:
  "\<forall>it\<in>set (history alpha_beta). \<not> ci_substring ''zz-no-match'' (content it)"
  by (simp add: alpha_beta_def with_history_def ci_substring_def text_item_def ClipboardItem_def
      lower_def lower_char_def sublist_Cons_right)

theorem C7_search_lists_known_kinds_witness:
  "listbox (on_search_changed alpha_beta ''BETA'') = [text_item ''beta'']
   \<and> listbox (on_search_changed alpha_beta []) = [text_item ''alpha'', text_item ''beta'']
   \<and> listbox (on_search_changed alpha_beta ''zz-no-match'') = []
   \<and> history (on_search_changed alpha_beta ''BETA'') = history alpha_beta"
proof -
  have s: "spec_search [text_item ''alpha'', text_item ''beta''] ''BETA'' = [text_item ''beta'']"
    by (simp add: spec_search_def ci_substring_def text_item_def
        ClipboardItem_def lower_def lower_char_def sublist_Cons_right)
  have h: "history alpha_beta = [text_item ''alpha'', text_item ''beta'']"
    by (simp add: alpha_beta_def with_history_def)
  from C7_search_lists_known_kinds [of alpha_beta "''BETA''"] alpha_beta_known
  have "listbox (on_search_changed alpha_beta ''BETA'') = spec_search (history alpha_beta) ''BETA''"
    and "history (on_search_changed alpha_beta ''BETA'') = history alpha_beta"
    and "listbox (on_search_changed alpha_beta []) = history alpha_beta"
    by blast+
  moreover from C7_search_lists_known_kinds [of alpha_beta "''zz-no-match''"] alpha_beta_no_match
  have "listbox (on_search_changed alpha_beta ''zz-no-match'') = []"
    by blast
  ultimately show ?thesis by (simp add: s h)
qed

lemma other_kind_loaded:
  "history (FluentClip_init parse_ex (Some other_kind_file))
     = [ClipboardItem ''notes.txt'' t1 ''file'' None]"
proof -
  have "from_dicts parse_ex
          [Dict [(''content'', ''notes.txt''), (''timestamp'', isoformat t1), (''type'', ''file'')]]
        = Inr [ClipboardItem ''notes.txt'' t1 ''file'' None]"
    by (simp add: parse_ex_def)
  from init_loaded(1) [OF this] show ?thesis by (simp add: other_kind_file_def)
qed

text \<open>
  The claim as it stands fails for an entry of another type, which a history file can
  bring in: its content contains the empty query and the query NOTES, the specified search
  returns it, and \<open>on_search_changed\<close> lists nothing.
\<close>

theorem C7_other_kind_counterexample:
  "history (FluentClip_init parse_ex (Some other_kind_file))
     = [ClipboardItem ''notes.txt'' t1 ''file'' None]
   \<and> spec_search (history (FluentClip_init parse_ex (Some other_kind_file))) []
        = [ClipboardItem ''notes.txt'' t1 ''file'' None]
   \<and> listbox (on_search_changed (FluentClip_init parse_ex (Some other_kind_file)) []) = []
   \<and> spec_search (history (FluentClip_init parse_ex (Some other_kind_file))) ''NOTES''
        = [ClipboardItem ''notes.txt'' t1 ''file'' None]
   \<and> listbox (on_search_changed (FluentClip_init parse_ex (Some other_kind_file)) ''NOTES'') = []"
proof -
  note h = other_kind_loaded
  have "spec_search [ClipboardItem ''notes.txt'' t1 ''file'' None] []
          = [ClipboardItem ''notes.txt'' t1 ''file'' None]"
    and "spec_search [ClipboardItem ''notes.txt'' t1 ''file'' None] ''NOTES''
          = [ClipboardItem ''notes.txt'' t1 ''file'' None]"
    by (simp_all add: spec_search_def ci_substring_def ClipboardItem_def lower_def lower_char_def
        sublist_Cons_right)
  moreover have "listbox (on_search_changed (FluentClip_init parse_ex (Some other_kind_file)) q) = []"
    for q
    by (simp add: on_search_changed_def Let_def h ClipboardItem_def)
  ultimately show ?thesis by (simp add: h)
qed

end
